theory Spec2Isabelle
  imports Main "HOL-Library.Sublist" "HOL-Library.Signed_Division"
begin

chapter \<open>A shallow embedding of the toyou-proxy reverse proxy\<close>

text \<open>
  The theory embeds the parts of the proxy that decide where a request goes and which
  backend serves it: the host matcher, the dispatcher's target resolution and middleware
  chain assembly, WebSocket upgrade detection, the rate limiter's client key, the
  response rewriting rules, and the load balancer with its connection counters and
  health probes. All definitions come first; the properties follow.
\<close>

section \<open>Strings, integers and the standard library\<close>

text \<open>
  Go strings and byte slices are byte sequences; they are modelled as \<open>string\<close>, a list
  of 8-bit characters. \<open>strings.HasPrefix\<close>, \<open>strings.HasSuffix\<close> and
  \<open>strings.Contains\<close> compare bytes.
\<close>

definition HasPrefix :: "string \<Rightarrow> string \<Rightarrow> bool" where
  "HasPrefix s p = prefix p s"

definition HasSuffix :: "string \<Rightarrow> string \<Rightarrow> bool" where
  "HasSuffix s p = suffix p s"

fun Contains :: "string \<Rightarrow> string \<Rightarrow> bool" where
  "Contains [] substr = (substr = [])"
| "Contains (c # s) substr = (prefix substr (c # s) \<or> Contains s substr)"

text \<open>
  The Go type \<open>int\<close> has 64 bits on the platforms the proxy is built for. A value of
  that type is an \<open>int\<close> in the range from \<open>- 2 ^ 63\<close> up to \<open>2 ^ 63 - 1\<close>, and
  \<open>wrap64\<close> is what an addition or subtraction leaves in the variable. The operator
  \<open>%\<close> truncates towards zero, which is \<open>smod\<close>.
\<close>

definition wrap64 :: "int \<Rightarrow> int" where
  "wrap64 x = (x + 2 ^ 63) mod 2 ^ 64 - 2 ^ 63"

definition go_rem :: "int \<Rightarrow> int \<Rightarrow> int" where
  "go_rem a b = a smod b"

text \<open>
  The packages \<open>regexp\<close> and \<open>net/url\<close> and the function \<open>strings.ToLower\<close> belong to
  the Go standard library, not to this repository, so they are parameters of the model.
  \<open>regexp_Compile p\<close> is the compiled expression of the pattern \<open>p\<close>, or \<open>None\<close> when
  \<open>p\<close> is not a valid expression (\<open>regexp.Compile\<close> returns an error then and
  \<open>regexp.MustCompile\<close> panics). \<open>url_Hostname u\<close> is \<open>Hostname()\<close> of the parsed URL,
  or \<open>None\<close> when \<open>url.Parse\<close> fails. \<open>strings_ToLower s\<close> is \<open>strings.ToLower(s)\<close>,
  which folds the letters of Unicode, not only those of ASCII, and encodes the result
  again.
\<close>

record Regexp =
  MatchString :: "string \<Rightarrow> bool"
  ReplaceAllString :: "string \<Rightarrow> string \<Rightarrow> string"

record stdlib =
  regexp_Compile :: "string \<Rightarrow> Regexp option"
  url_Hostname :: "string \<Rightarrow> string option"
  strings_ToLower :: "string \<Rightarrow> string"

text \<open>
  \<open>textproto.CanonicalMIMEHeaderKey\<close>, the canonical form of a header field name, works
  on bytes and is written out. A name with a byte that is not allowed in a field name is
  left as it is. In every other name the first letter and each letter after a hyphen
  become upper case and all other letters lower case: \<open>Sec-WebSocket-Key\<close> becomes
  \<open>Sec-Websocket-Key\<close>.
\<close>

definition validHeaderFieldByte :: "char \<Rightarrow> bool" where
  "validHeaderFieldByte c =
     (let n = (of_char c :: nat) in
      (48 \<le> n \<and> n \<le> 57) \<or> (97 \<le> n \<and> n \<le> 122) \<or> (65 \<le> n \<and> n \<le> 90)
      \<or> n \<in> set [33, 35, 36, 37, 38, 39, 42, 43, 45, 46, 94, 95, 96, 124, 126])"

fun canonicalMIMEHeaderKey_loop :: "bool \<Rightarrow> string \<Rightarrow> string" where
  "canonicalMIMEHeaderKey_loop upper [] = []"
| "canonicalMIMEHeaderKey_loop upper (c # a) =
     (let n = (of_char c :: nat);
          c = (if upper \<and> 97 \<le> n \<and> n \<le> 122 then char_of (n - 32)
               else if \<not> upper \<and> 65 \<le> n \<and> n \<le> 90 then char_of (n + 32)
               else c)
      in c # canonicalMIMEHeaderKey_loop (c = CHR ''-'') a)"

definition CanonicalMIMEHeaderKey :: "string \<Rightarrow> string" where
  "CanonicalMIMEHeaderKey s =
     (if list_all validHeaderFieldByte s then canonicalMIMEHeaderKey_loop True s else s)"

section \<open>Response body rewriting: \<open>middleware/replace.go\<close>\<close>

record ReplaceRule =
  rule_Pattern :: string
  rule_Replacement :: string
  rule_Global :: bool


section \<open>Requests and the middleware context\<close>

text \<open>
  Of an \<open>http.Request\<close> the model keeps the fields the embedded functions read.
  \<open>req_Header\<close> is the header table as the server holds it: every field stands under
  the canonical form of its name, whatever its spelling in the request was, and the
  table lists these names with the first value of each. \<open>Header_Get\<close> is
  \<open>r.Header.Get\<close>: it looks up the canonical form of the key it is given and yields
  the empty string for an absent field.
\<close>

record Request =
  req_Host :: string
  req_Path :: string
  req_Header :: "(string \<times> string) list"
  req_RemoteAddr :: string

definition Header_Get :: "Request \<Rightarrow> string \<Rightarrow> string" where
  "Header_Get r key =
     (case map_of (req_Header r) (CanonicalMIMEHeaderKey key) of
        Some v \<Rightarrow> v
      | None \<Rightarrow> [])"

text \<open>
  A value of type \<open>interface{}\<close> in the context's value bag: a string, a boolean, the
  rule list stored by the replace middleware, or a value of another dynamic type.
\<close>

datatype go_value =
  VString string
  | VBool bool
  | VReplaceRules "ReplaceRule list"
  | VOther nat

record Context =
  ctx_Request :: Request
  ctx_Values :: "string \<rightharpoonup> go_value"
  ctx_TargetURL :: string
  ctx_ServiceName :: string
  ctx_StatusCode :: int

text \<open>
  A middleware is its name and its handler. The handler receives the context by
  pointer and may change it; in the model it returns the changed context next to its
  verdict.
\<close>

record Middleware =
  mw_Name :: string
  mw_Handle :: "Context \<Rightarrow> bool \<times> Context"

text \<open>\<open>DefaultMiddlewareChain.Execute\<close>: the handlers run in order up to the first refusal.\<close>

fun Execute :: "Middleware list \<Rightarrow> Context \<Rightarrow> bool \<times> Context" where
  "Execute [] ctx = (True, ctx)"
| "Execute (middleware # rest) ctx =
     (case mw_Handle middleware ctx of
        (False, ctx') \<Rightarrow> (False, ctx')
      | (True, ctx') \<Rightarrow> Execute rest ctx')"

definition GetMiddlewareNames :: "Middleware list \<Rightarrow> string list" where
  "GetMiddlewareNames middlewares = map mw_Name middlewares"

section \<open>WebSocket upgrade detection: \<open>isWebSocketUpgrade\<close>\<close>

definition isWebSocketUpgrade :: "stdlib \<Rightarrow> Request \<Rightarrow> bool" where
  "isWebSocketUpgrade lib r =
     (let connection = strings_ToLower lib (Header_Get r ''Connection'') in
      if \<not> Contains connection ''upgrade'' then False
      else
        let upgrade = strings_ToLower lib (Header_Get r ''Upgrade'') in
        if upgrade \<noteq> ''websocket'' then False
        else if Header_Get r ''Sec-WebSocket-Version'' \<noteq> ''13'' then False
        else if Header_Get r ''Sec-WebSocket-Key'' = [] then False
        else True)"

section \<open>The client address of the rate limiter: \<open>getClientIP\<close>\<close>

text \<open>
  The function has the same body in \<open>middleware/rate_limit_middleware.go\<close> and in the
  rate limit plugin.
\<close>

definition getClientIP :: "Request \<Rightarrow> string" where
  "getClientIP r =
     (let forwarded = Header_Get r ''X-Forwarded-For'' in
      if forwarded \<noteq> [] then forwarded
      else
        let realIP = Header_Get r ''X-Real-IP'' in
        if realIP \<noteq> [] then realIP
        else req_RemoteAddr r)"

section \<open>The host matcher: \<open>matcher.HostMatcher\<close>\<close>

text \<open>
  The matcher holds a Go map from pattern to target. A Go map has one entry for each key
  and \<open>range\<close> visits the entries in an order the language leaves open, so the matcher is
  modelled as the list of its entries in the order the loop of the call at hand visits
  them. \<open>AddRule\<close> overwrites the entry of a pattern that is already present.
\<close>

type_synonym HostMatcher = "(string \<times> string) list"

definition AddRule :: "string \<Rightarrow> string \<Rightarrow> HostMatcher \<Rightarrow> HostMatcher" where
  "AddRule pattern target rules =
     (if pattern \<in> fst ` set rules
      then map (\<lambda>(p, t). if p = pattern then (p, target) else (p, t)) rules
      else rules @ [(pattern, target)])"

text \<open>The wildcard loop of \<open>Match\<close>; the empty target with \<open>False\<close> is the final return.\<close>

fun Match_wildcard :: "HostMatcher \<Rightarrow> string \<Rightarrow> string \<times> bool" where
  "Match_wildcard [] host = ([], False)"
| "Match_wildcard ((pattern, target) # rest) host =
     (if HasPrefix pattern ''*.'' then
        (let domain = drop 2 pattern in
         if HasSuffix host domain then
           (if host = domain \<or> HasSuffix host (''.'' @ domain) then (target, True)
            else Match_wildcard rest host)
         else Match_wildcard rest host)
      else Match_wildcard rest host)"

definition Match :: "HostMatcher \<Rightarrow> string \<Rightarrow> string \<times> bool" where
  "Match rules host =
     (case map_of rules host of
        Some target \<Rightarrow> (target, True)
      | None \<Rightarrow> Match_wildcard rules host)"

section \<open>The dispatcher: \<open>proxy.ProxyHandler\<close>\<close>

record RouteRule =
  route_Pattern :: string
  route_Target :: string
  route_Middlewares :: "string list"

record HostRule =
  host_Pattern :: string
  host_Port :: int
  host_Target :: string
  host_Middlewares :: "string list"
  host_RouteRules :: "RouteRule list"

record Service =
  svc_URL :: string
  svc_ProxyHost :: string

text \<open>
  A configuration map \<open>map[string]interface{}\<close>; \<open>None\<close> is the \<open>nil\<close> map. An entry of
  \<open>middlewares\<close> and an entry of \<open>middleware_services\<close> of the configuration follow.
\<close>

type_synonym config_map = "(string \<rightharpoonup> go_value) option"

record MiddlewareConfig =
  mwc_Name :: string
  mwc_Enabled :: bool
  mwc_Config :: config_map

record MiddlewareService =
  mws_Name :: string
  mws_Type :: string
  mws_Enabled :: bool
  mws_IsGlobal :: bool
  mws_Config :: config_map

text \<open>
  The handler with the fields its request path reads. \<open>ph_factory\<close> is the creator table
  of \<open>DefaultMiddlewareFactory\<close>; a creator yields \<open>None\<close> where the Go creator returns
  an error. \<open>ph_hostMatcher\<close> holds the matcher that \<open>NewProxyHandler\<close> fills from the
  host rules.
\<close>

record ProxyHandler =
  ph_hostMatcher :: HostMatcher
  ph_services :: "string \<rightharpoonup> Service"
  ph_factory :: "string \<rightharpoonup> (config_map \<Rightarrow> Middleware option)"
  cfg_HostRules :: "HostRule list"
  cfg_Middlewares :: "MiddlewareConfig list"

definition NewHostMatcher_of :: "HostRule list \<Rightarrow> HostMatcher" where
  "NewHostMatcher_of hostRules =
     fold (\<lambda>rule hm. AddRule (host_Pattern rule) (host_Target rule) hm) hostRules []"

datatype error =
  NoMatchingRule string string
  | NoActiveBackends
  | InvalidWeights

definition strip_port :: "string \<Rightarrow> string" where
  "strip_port host =
     (if CHR '':'' \<in> set host then takeWhile (\<lambda>c. c \<noteq> CHR '':'') host else host)"

text \<open>
  The loop of \<open>determineTarget\<close> over the route rules of the matched host rule. A rule
  whose pattern matches and whose target is a configured service ends the loop; every
  other rule passes control to the next one.
\<close>

fun match_route_rules ::
  "stdlib \<Rightarrow> (string \<rightharpoonup> Service) \<Rightarrow> string \<Rightarrow> RouteRule list \<Rightarrow> (Service \<times> RouteRule) option"
where
  "match_route_rules lib services path [] = None"
| "match_route_rules lib services path (routeRule # rest) =
     (if route_Pattern routeRule = ''/'' \<and> path = ''/'' then
        (case services (route_Target routeRule) of
           Some service \<Rightarrow> Some (service, routeRule)
         | None \<Rightarrow> match_route_rules lib services path rest)
      else if HasSuffix (route_Pattern routeRule) ''/*'' then
        (let prefix = take (length (route_Pattern routeRule) - 2) (route_Pattern routeRule) in
         if HasPrefix path prefix then
           (if path = prefix \<or> HasPrefix path (prefix @ ''/'') then
              (case services (route_Target routeRule) of
                 Some service \<Rightarrow> Some (service, routeRule)
               | None \<Rightarrow> match_route_rules lib services path rest)
            else match_route_rules lib services path rest)
         else match_route_rules lib services path rest)
      else if HasPrefix (route_Pattern routeRule) ''^'' \<and> HasSuffix (route_Pattern routeRule) ''$'' then
        (case regexp_Compile lib (route_Pattern routeRule) of
           Some re \<Rightarrow>
             (if MatchString re path then
                (case services (route_Target routeRule) of
                   Some service \<Rightarrow> Some (service, routeRule)
                 | None \<Rightarrow> match_route_rules lib services path rest)
              else match_route_rules lib services path rest)
         | None \<Rightarrow> match_route_rules lib services path rest)
      else match_route_rules lib services path rest)"

text \<open>
  \<open>determineTarget\<close> returns the service, the matched host rule and the matched route
  rule, if any. The host rule is the first one whose target is the name the matcher
  returned.
\<close>

definition determineTarget ::
  "stdlib \<Rightarrow> ProxyHandler \<Rightarrow> Request \<Rightarrow> error + (Service \<times> HostRule \<times> RouteRule option)"
where
  "determineTarget lib ph r =
     (let host = strip_port (req_Host r) in
      case Match (ph_hostMatcher ph) host of
        (targetServiceName, False) \<Rightarrow> Inl (NoMatchingRule (req_Host r) (req_Path r))
      | (targetServiceName, True) \<Rightarrow>
          (case find (\<lambda>hostRule. host_Target hostRule = targetServiceName) (cfg_HostRules ph) of
             None \<Rightarrow> Inl (NoMatchingRule (req_Host r) (req_Path r))
           | Some matchedHostRule \<Rightarrow>
               (case match_route_rules lib (ph_services ph) (req_Path r)
                       (host_RouteRules matchedHostRule) of
                  Some (service, routeRule) \<Rightarrow> Inr (service, matchedHostRule, Some routeRule)
                | None \<Rightarrow>
                    (case ph_services ph (host_Target matchedHostRule) of
                       Some service \<Rightarrow> Inr (service, matchedHostRule, None)
                     | None \<Rightarrow> Inl (NoMatchingRule (req_Host r) (req_Path r))))))"

subsection \<open>Assembly of the middleware chain\<close>

text \<open>\<open>DefaultMiddlewareFactory.CreateMiddleware\<close>; \<open>None\<close> is a returned error.\<close>

definition CreateMiddleware ::
  "(string \<rightharpoonup> (config_map \<Rightarrow> Middleware option)) \<Rightarrow> string \<Rightarrow> config_map \<Rightarrow> Middleware option"
where
  "CreateMiddleware creators name config =
     (case creators name of
        None \<Rightarrow> None
      | Some creator \<Rightarrow> creator config)"

text \<open>The map \<open>enabledMiddlewares\<close>: a later enabled entry replaces an earlier one of its name.\<close>

definition enabledMiddlewares_of :: "MiddlewareConfig list \<Rightarrow> (string \<rightharpoonup> MiddlewareConfig)" where
  "enabledMiddlewares_of mws =
     fold (\<lambda>mwConfig m. if mwc_Enabled mwConfig then m(mwc_Name mwConfig \<mapsto> mwConfig) else m)
       mws Map.empty"

text \<open>
  The loop over the names listed on a rule. The route-level loop and the host-level loop
  of \<open>createDynamicMiddlewareChain\<close> have this same body and differ in their log
  messages only. \<open>chain @ [mw]\<close> is \<open>chain.Add(mw)\<close>.
\<close>

fun add_rule_middlewares ::
  "(string \<rightharpoonup> (config_map \<Rightarrow> Middleware option)) \<Rightarrow> (string \<rightharpoonup> MiddlewareConfig) \<Rightarrow>
   string list \<Rightarrow> Middleware list \<Rightarrow> Middleware list"
where
  "add_rule_middlewares factory enabledMiddlewares [] chain = chain"
| "add_rule_middlewares factory enabledMiddlewares (mwName # rest) chain =
     (case CreateMiddleware factory mwName None of
        Some mw \<Rightarrow> add_rule_middlewares factory enabledMiddlewares rest (chain @ [mw])
      | None \<Rightarrow>
          (case enabledMiddlewares mwName of
             Some mwConfig \<Rightarrow>
               (case CreateMiddleware factory (mwc_Name mwConfig) (mwc_Config mwConfig) of
                  None \<Rightarrow> add_rule_middlewares factory enabledMiddlewares rest chain
                | Some mw \<Rightarrow> add_rule_middlewares factory enabledMiddlewares rest (chain @ [mw]))
           | None \<Rightarrow> add_rule_middlewares factory enabledMiddlewares rest chain))"

text \<open>
  The flag \<open>alreadyAdded\<close> of the two global loops: the name is listed on the route rule
  or on the host rule.
\<close>

definition alreadyAdded :: "HostRule option \<Rightarrow> RouteRule option \<Rightarrow> string \<Rightarrow> bool" where
  "alreadyAdded hostRule routeRule name =
     ((case routeRule of None \<Rightarrow> False | Some rr \<Rightarrow> name \<in> set (route_Middlewares rr)) \<or>
      (case hostRule of None \<Rightarrow> False | Some hr \<Rightarrow> name \<in> set (host_Middlewares hr)))"

fun add_global_middlewares ::
  "(string \<rightharpoonup> (config_map \<Rightarrow> Middleware option)) \<Rightarrow> HostRule option \<Rightarrow> RouteRule option \<Rightarrow>
   MiddlewareConfig list \<Rightarrow> Middleware list \<Rightarrow> Middleware list"
where
  "add_global_middlewares factory hostRule routeRule [] chain = chain"
| "add_global_middlewares factory hostRule routeRule (mwConfig # rest) chain =
     (if mwc_Enabled mwConfig then
        (if \<not> alreadyAdded hostRule routeRule (mwc_Name mwConfig) then
           (case CreateMiddleware factory (mwc_Name mwConfig) (mwc_Config mwConfig) of
              None \<Rightarrow> add_global_middlewares factory hostRule routeRule rest chain
            | Some mw \<Rightarrow> add_global_middlewares factory hostRule routeRule rest (chain @ [mw]))
         else add_global_middlewares factory hostRule routeRule rest chain)
      else add_global_middlewares factory hostRule routeRule rest chain)"

fun add_global_services ::
  "(string \<rightharpoonup> (config_map \<Rightarrow> Middleware option)) \<Rightarrow> HostRule option \<Rightarrow> RouteRule option \<Rightarrow>
   MiddlewareService list \<Rightarrow> Middleware list \<Rightarrow> Middleware list"
where
  "add_global_services factory hostRule routeRule [] chain = chain"
| "add_global_services factory hostRule routeRule (service # rest) chain =
     (if mws_IsGlobal service then
        (if \<not> alreadyAdded hostRule routeRule (mws_Name service) then
           (case CreateMiddleware factory (mws_Name service) None of
              None \<Rightarrow> add_global_services factory hostRule routeRule rest chain
            | Some mw \<Rightarrow> add_global_services factory hostRule routeRule rest (chain @ [mw]))
         else add_global_services factory hostRule routeRule rest chain)
      else add_global_services factory hostRule routeRule rest chain)"

text \<open>
  \<open>registry\<close> is the global middleware service registry: \<open>None\<close> when it is \<open>nil\<close>,
  otherwise the result of its \<open>List()\<close>, the registered services in the order the call
  yields them.
\<close>

definition createDynamicMiddlewareChain ::
  "ProxyHandler \<Rightarrow> MiddlewareService list option \<Rightarrow> HostRule option \<Rightarrow> RouteRule option \<Rightarrow>
   Middleware list"
where
  "createDynamicMiddlewareChain ph registry hostRule routeRule =
     (let chain = [];
          factory = ph_factory ph;
          enabledMiddlewares = enabledMiddlewares_of (cfg_Middlewares ph);
          chain = (case routeRule of
                     None \<Rightarrow> chain
                   | Some rr \<Rightarrow>
                       add_rule_middlewares factory enabledMiddlewares (route_Middlewares rr) chain);
          chain = (case hostRule of
                     None \<Rightarrow> chain
                   | Some hr \<Rightarrow>
                       add_rule_middlewares factory enabledMiddlewares (host_Middlewares hr) chain);
          chain = add_global_middlewares factory hostRule routeRule (cfg_Middlewares ph) chain
      in case registry of
           None \<Rightarrow> chain
         | Some services \<Rightarrow> add_global_services factory hostRule routeRule services chain)"

subsection \<open>\<open>ServeHTTP\<close>\<close>

definition getServiceName :: "stdlib \<Rightarrow> string \<Rightarrow> string" where
  "getServiceName lib urlStr =
     (case url_Hostname lib urlStr of Some h \<Rightarrow> h | None \<Rightarrow> urlStr)"

text \<open>
  The step of \<open>ServeHTTP\<close> after the chain has run: the value stored under
  \<open>dynamic_target_service\<close>, when it is a string that names a configured service,
  replaces the target.
\<close>

definition dynamic_target :: "stdlib \<Rightarrow> ProxyHandler \<Rightarrow> Service \<Rightarrow> Context \<Rightarrow> Service \<times> Context" where
  "dynamic_target lib ph targetService ctx =
     (case ctx_Values ctx ''dynamic_target_service'' of
        None \<Rightarrow> (targetService, ctx)
      | Some dynamicTarget \<Rightarrow>
          (case dynamicTarget of
             VString dynamicTargetServiceName \<Rightarrow>
               (case ph_services ph dynamicTargetServiceName of
                  Some service \<Rightarrow>
                    (service, ctx\<lparr>ctx_TargetURL := svc_URL service,
                                   ctx_ServiceName := getServiceName lib (svc_URL service)\<rparr>)
                | None \<Rightarrow> (targetService, ctx))
           | _ \<Rightarrow> (targetService, ctx)))"

text \<open>
  The outcome of \<open>ServeHTTP\<close> up to the hand-over to the reverse proxy: a 502 answer
  with the error of \<open>determineTarget\<close>, a request that a middleware aborted, or the call
  of \<open>createReverseProxy\<close> with the final target service and the context.
\<close>

datatype outcome =
  BadGateway error
  | Aborted Context
  | ReverseProxy Service Context

definition ServeHTTP ::
  "stdlib \<Rightarrow> ProxyHandler \<Rightarrow> MiddlewareService list option \<Rightarrow> Request \<Rightarrow> outcome"
where
  "ServeHTTP lib ph registry r =
     (let ctx = \<lparr>ctx_Request = r, ctx_Values = Map.empty, ctx_TargetURL = [],
                 ctx_ServiceName = [], ctx_StatusCode = 0\<rparr>
      in case determineTarget lib ph r of
           Inl err \<Rightarrow> BadGateway err
         | Inr (targetService, hostRule, routeRule) \<Rightarrow>
             (let ctx = ctx\<lparr>ctx_TargetURL := svc_URL targetService,
                            ctx_ServiceName := getServiceName lib (svc_URL targetService)\<rparr>;
                  dynamicMiddlewareChain =
                    createDynamicMiddlewareChain ph registry (Some hostRule) routeRule
              in case Execute dynamicMiddlewareChain ctx of
                   (False, ctx') \<Rightarrow> Aborted ctx'
                 | (True, ctx') \<Rightarrow>
                     (case dynamic_target lib ph targetService ctx' of
                        (targetService', ctx'') \<Rightarrow> ReverseProxy targetService' ctx'')))"

section \<open>The load balancer: \<open>loadbalancer.BaseLoadBalancer\<close>\<close>

record HealthCheckConfig =
  hc_Enabled :: bool
  hc_Interval :: int
  hc_Timeout :: int
  hc_Path :: string

record Backend =
  be_URL :: string
  be_Weight :: int
  be_Active :: bool
  be_Connections :: int
  be_ResponseTime :: int
  be_HealthCheck :: HealthCheckConfig

text \<open>
  The balancer owns its backends. Its methods run under the balancer's mutex, so a
  run of concurrent calls is one of their sequences; each method is a function from the
  backends before the call to the backends after it. Both loops stop at the first
  backend with the given URL.
\<close>

record BaseLoadBalancer =
  lb_HealthCheck :: HealthCheckConfig
  lb_backends :: "Backend list"

fun IncrementConnection_loop :: "string \<Rightarrow> Backend list \<Rightarrow> Backend list" where
  "IncrementConnection_loop url [] = []"
| "IncrementConnection_loop url (backend # rest) =
     (if be_URL backend = url
      then backend\<lparr>be_Connections := wrap64 (be_Connections backend + 1)\<rparr> # rest
      else backend # IncrementConnection_loop url rest)"

fun DecrementConnection_loop :: "string \<Rightarrow> Backend list \<Rightarrow> Backend list" where
  "DecrementConnection_loop url [] = []"
| "DecrementConnection_loop url (backend # rest) =
     (if be_URL backend = url
      then (if be_Connections backend > 0
            then backend\<lparr>be_Connections := wrap64 (be_Connections backend - 1)\<rparr>
            else backend) # rest
      else backend # DecrementConnection_loop url rest)"

definition IncrementConnection :: "string \<Rightarrow> 'a BaseLoadBalancer_scheme \<Rightarrow> 'a BaseLoadBalancer_scheme" where
  "IncrementConnection url lb = lb\<lparr>lb_backends := IncrementConnection_loop url (lb_backends lb)\<rparr>"

definition DecrementConnection :: "string \<Rightarrow> 'a BaseLoadBalancer_scheme \<Rightarrow> 'a BaseLoadBalancer_scheme" where
  "DecrementConnection url lb = lb\<lparr>lb_backends := DecrementConnection_loop url (lb_backends lb)\<rparr>"

text \<open>A call of one of the two methods, and a sequence of such calls.\<close>

datatype connection_call = Increment string | Decrement string

fun connection_step :: "connection_call \<Rightarrow> 'a BaseLoadBalancer_scheme \<Rightarrow> 'a BaseLoadBalancer_scheme" where
  "connection_step (Increment url) lb = IncrementConnection url lb"
| "connection_step (Decrement url) lb = DecrementConnection url lb"

definition connection_calls :: "connection_call list \<Rightarrow> 'a BaseLoadBalancer_scheme \<Rightarrow> 'a BaseLoadBalancer_scheme" where
  "connection_calls calls lb = fold connection_step calls lb"

text \<open>
  The counter that the two methods address under a URL: that of the first backend with
  the URL, if there is one.
\<close>

definition Connections_of :: "string \<Rightarrow> 'a BaseLoadBalancer_scheme \<Rightarrow> int option" where
  "Connections_of url lb =
     map_option be_Connections (find (\<lambda>backend. be_URL backend = url) (lb_backends lb))"

text \<open>All counters of a backend list lie between \<open>0\<close> and a bound.\<close>

definition conn_bounded :: "int \<Rightarrow> Backend list \<Rightarrow> bool" where
  "conn_bounded N bs = list_all (\<lambda>b. 0 \<le> be_Connections b \<and> be_Connections b \<le> N) bs"

text \<open>
  \<open>GetActiveBackends\<close> returns pointers to the active backends. A pointer is the
  position of the backend in \<open>lb_backends\<close>; it is paired with the backend it points to.
\<close>

definition GetActiveBackends :: "'a BaseLoadBalancer_scheme \<Rightarrow> (nat \<times> Backend) list" where
  "GetActiveBackends lb = filter (\<lambda>(p, backend). be_Active backend) (enumerate 0 (lb_backends lb))"

subsection \<open>Health probes: \<open>HealthChecker.checkBackend\<close>\<close>

text \<open>
  What the probe meets outside the process: \<open>http.NewRequest\<close> rejects the URL, the
  client returns an error (which includes the timeout), or a response arrives with a
  status code. The network is a function from the probed URL and the timeout to that
  result.
\<close>

datatype probe_result = NewRequestError | DoError | Status int

type_synonym network = "string \<Rightarrow> int \<Rightarrow> probe_result"

definition probe_backend :: "network \<Rightarrow> HealthCheckConfig \<Rightarrow> Backend \<Rightarrow> Backend" where
  "probe_backend net config backend =
     (let url = be_URL backend;
          url = (if hc_Path config \<noteq> [] then be_URL backend @ hc_Path config else url)
      in case net url (hc_Timeout config) of
           NewRequestError \<Rightarrow> backend\<lparr>be_Active := False\<rparr>
         | DoError \<Rightarrow> backend\<lparr>be_Active := False\<rparr>
         | Status StatusCode \<Rightarrow> backend\<lparr>be_Active := (StatusCode \<ge> 200 \<and> StatusCode < 300)\<rparr>)"

definition checkBackend :: "network \<Rightarrow> HealthCheckConfig \<Rightarrow> Backend \<Rightarrow> Backend" where
  "checkBackend net lbHealthCheck backend =
     (let config = be_HealthCheck backend in
      if \<not> hc_Enabled config then
        (let config = lbHealthCheck in
         if \<not> hc_Enabled config then backend\<lparr>be_Active := True\<rparr>
         else probe_backend net config backend)
      else probe_backend net config backend)"

text \<open>
  The answer the network gives to the probe of a backend: the probe uses the backend's
  own health check configuration when that is enabled and the balancer's otherwise. An
  answer is healthy when it is a response with a status from 200 up to 299. \<open>probes\<close>
  is a run of consecutive probes of one backend, each against the network as it is at
  that moment.
\<close>

definition probe_answer :: "network \<Rightarrow> HealthCheckConfig \<Rightarrow> Backend \<Rightarrow> probe_result" where
  "probe_answer net lbHealthCheck backend =
     (let config = (if hc_Enabled (be_HealthCheck backend) then be_HealthCheck backend
                    else lbHealthCheck)
      in net (if hc_Path config \<noteq> [] then be_URL backend @ hc_Path config else be_URL backend)
             (hc_Timeout config))"

definition healthy_answer :: "probe_result \<Rightarrow> bool" where
  "healthy_answer answer =
     (case answer of Status code \<Rightarrow> 200 \<le> code \<and> code < 300 | _ \<Rightarrow> False)"

definition probes :: "network list \<Rightarrow> HealthCheckConfig \<Rightarrow> Backend \<Rightarrow> Backend" where
  "probes nets lbHealthCheck backend = fold (\<lambda>net b. checkBackend net lbHealthCheck b) nets backend"

subsection \<open>Weighted round robin: \<open>WeightedRoundRobinLoadBalancer.NextBackend\<close>\<close>

record WeightedRoundRobinLoadBalancer = BaseLoadBalancer +
  wrr_current :: int
  wrr_weight :: int

definition NewWeightedRoundRobinLoadBalancer ::
  "HealthCheckConfig \<Rightarrow> Backend list \<Rightarrow> WeightedRoundRobinLoadBalancer"
where
  "NewWeightedRoundRobinLoadBalancer healthCheck backends =
     \<lparr>lb_HealthCheck = healthCheck, lb_backends = backends, wrr_current = 0, wrr_weight = 0\<rparr>"

fun totalWeight_loop :: "int \<Rightarrow> (nat \<times> Backend) list \<Rightarrow> int" where
  "totalWeight_loop totalWeight [] = totalWeight"
| "totalWeight_loop totalWeight ((p, backend) # rest) =
     (if be_Weight backend \<le> 0
      then totalWeight_loop (wrap64 (totalWeight + 1)) rest
      else totalWeight_loop (wrap64 (totalWeight + be_Weight backend)) rest)"

fun select_loop :: "int \<Rightarrow> int \<Rightarrow> (nat \<times> Backend) list \<Rightarrow> nat option" where
  "select_loop targetWeight currentWeight [] = None"
| "select_loop targetWeight currentWeight ((p, backend) # rest) =
     (let weight = be_Weight backend;
          weight = (if weight \<le> 0 then 1 else weight);
          currentWeight = wrap64 (currentWeight + weight)
      in if targetWeight < currentWeight then Some p
         else select_loop targetWeight currentWeight rest)"

text \<open>
  \<open>NextBackend\<close> returns the pointer to the selected backend, or an error, and leaves
  the balancer with its counter advanced. The counter is not advanced on an error.
\<close>

definition NextBackend ::
  "WeightedRoundRobinLoadBalancer \<Rightarrow> (error + nat) \<times> WeightedRoundRobinLoadBalancer"
where
  "NextBackend lb =
     (let activeBackends = GetActiveBackends lb in
      if length activeBackends = 0 then (Inl NoActiveBackends, lb)
      else
        let totalWeight = totalWeight_loop 0 activeBackends in
        if totalWeight = 0 then (Inl InvalidWeights, lb)
        else
          let targetWeight = go_rem (wrr_weight lb) totalWeight;
              lb' = lb\<lparr>wrr_weight := wrap64 (wrr_weight lb + 1)\<rparr>
          in case select_loop targetWeight 0 activeBackends of
               Some p \<Rightarrow> (Inr p, lb')
             | None \<Rightarrow> (Inr (fst (hd activeBackends)), lb'))"

text \<open>\<open>n\<close> calls in a row on a balancer whose backends do not change in between.\<close>

fun NextBackend_calls ::
  "nat \<Rightarrow> WeightedRoundRobinLoadBalancer \<Rightarrow> (error + nat) list \<times> WeightedRoundRobinLoadBalancer"
where
  "NextBackend_calls 0 lb = ([], lb)"
| "NextBackend_calls (Suc n) lb =
     (case NextBackend lb of
        (res, lb') \<Rightarrow> (case NextBackend_calls n lb' of (ress, lb'') \<Rightarrow> (res # ress, lb'')))"

text \<open>
  The notions in which the selection is specified: the weight of a backend with every
  weight below 1 counted as 1, the sum of these weights over the first \<open>k\<close> active
  backends, and their sum over all active backends. \<open>normal_weight\<close> writes the counted
  weight into the backend.
\<close>

definition effective_weight :: "Backend \<Rightarrow> int" where
  "effective_weight backend = (if be_Weight backend \<le> 0 then 1 else be_Weight backend)"

definition cumulative_weight :: "nat \<Rightarrow> (nat \<times> Backend) list \<Rightarrow> int" where
  "cumulative_weight k activeBackends =
     sum_list (map (\<lambda>(p, backend). effective_weight backend) (take k activeBackends))"

definition sum_of_weights :: "(nat \<times> Backend) list \<Rightarrow> int" where
  "sum_of_weights activeBackends = cumulative_weight (length activeBackends) activeBackends"

definition normal_weight :: "Backend \<Rightarrow> Backend" where
  "normal_weight backend = backend\<lparr>be_Weight := effective_weight backend\<rparr>"

text \<open>
  With the weights 3, 2 and 1 the sum is 6; \<open>slot r\<close> is the position of the backend
  whose share of the residues \<open>0\<close> to \<open>5\<close> holds \<open>r\<close>.
\<close>

definition slot :: "int \<Rightarrow> nat" where
  "slot r = (if r < 3 then 0 else if r < 5 then 1 else 2)"

section \<open>Example configurations\<close>

text \<open>
  Concrete configurations and requests on which the definitions are evaluated. The
  standard library is given on the strings of the examples: the URLs of the two services
  with their host names, no regular expression, since no example pattern has the shape
  of one that is compiled, and \<open>strings.ToLower\<close> as it is on a string of ASCII bytes,
  where it maps the letters \<open>A\<close> to \<open>Z\<close> to \<open>a\<close> to \<open>z\<close> and leaves every other byte.
  The header values of the examples are such strings.
\<close>

definition lower_byte :: "char \<Rightarrow> char" where
  "lower_byte c =
     (if 65 \<le> (of_char c :: nat) \<and> (of_char c :: nat) \<le> 90
      then char_of (of_char c + 32 :: nat) else c)"

definition example_ToLower :: "string \<Rightarrow> string" where
  "example_ToLower s = map lower_byte s"

definition example_stdlib :: stdlib where
  "example_stdlib =
     \<lparr>regexp_Compile = Map.empty,
      url_Hostname = map_of [(''http://127.0.0.1:9001'', ''127.0.0.1''),
                             (''http://127.0.0.1:9002'', ''127.0.0.1'')],
      strings_ToLower = example_ToLower\<rparr>"

definition example_services :: "string \<rightharpoonup> Service" where
  "example_services =
     [''primary'' \<mapsto> \<lparr>svc_URL = ''http://127.0.0.1:9001'', svc_ProxyHost = []\<rparr>,
      ''alt'' \<mapsto> \<lparr>svc_URL = ''http://127.0.0.1:9002'', svc_ProxyHost = []\<rparr>]"

definition example_request :: "string \<Rightarrow> string \<Rightarrow> (string \<times> string) list \<Rightarrow> Request" where
  "example_request host path header =
     \<lparr>req_Host = host, req_Path = path, req_Header = header,
      req_RemoteAddr = ''198.51.100.4:40312''\<rparr>"

text \<open>
  A middleware that behaves as the dynamic route plugin does once it holds a target for
  the host: a non-empty target is stored under \<open>dynamic_target_service\<close>, and the
  chain continues.
\<close>

definition example_dynamic_route :: "string \<Rightarrow> Middleware" where
  "example_dynamic_route targetService =
     \<lparr>mw_Name = ''dynamic_route'',
      mw_Handle = (\<lambda>ctx.
        (True, if targetService \<noteq> []
               then ctx\<lparr>ctx_Values :=
                          (ctx_Values ctx)(''dynamic_target_service'' \<mapsto> VString targetService)\<rparr>
               else ctx))\<rparr>"

definition example_dynamic_host :: HostRule where
  "example_dynamic_host =
     \<lparr>host_Pattern = ''app.example.com'', host_Port = 80, host_Target = ''primary'',
      host_Middlewares = [''dynamic_route''], host_RouteRules = []\<rparr>"

definition example_dynamic_handler :: "string \<Rightarrow> ProxyHandler" where
  "example_dynamic_handler targetService =
     \<lparr>ph_hostMatcher = NewHostMatcher_of [example_dynamic_host],
      ph_services = example_services,
      ph_factory = [''dynamic_route'' \<mapsto> (\<lambda>config. Some (example_dynamic_route targetService))],
      cfg_HostRules = [example_dynamic_host],
      cfg_Middlewares = []\<rparr>"

text \<open>A host rule with one route rule for the exact path \<open>/ws\<close>.\<close>

definition example_ws_route :: RouteRule where
  "example_ws_route =
     \<lparr>route_Pattern = ''/ws'', route_Target = ''alt'', route_Middlewares = []\<rparr>"

definition example_ws_host :: HostRule where
  "example_ws_host =
     \<lparr>host_Pattern = ''example.com'', host_Port = 80, host_Target = ''primary'',
      host_Middlewares = [], host_RouteRules = [example_ws_route]\<rparr>"

definition example_ws_handler :: ProxyHandler where
  "example_ws_handler =
     \<lparr>ph_hostMatcher = NewHostMatcher_of [example_ws_host],
      ph_services = example_services,
      ph_factory = Map.empty,
      cfg_HostRules = [example_ws_host],
      cfg_Middlewares = []\<rparr>"

text \<open>
  A host rule and a route rule of it that both list the middleware \<open>auth\<close>, and a
  factory in which \<open>auth\<close> is registered.
\<close>

definition example_auth :: Middleware where
  "example_auth = \<lparr>mw_Name = ''auth'', mw_Handle = (\<lambda>ctx. (True, ctx))\<rparr>"

definition example_auth_route :: RouteRule where
  "example_auth_route =
     \<lparr>route_Pattern = ''/api/*'', route_Target = ''alt'', route_Middlewares = [''auth'']\<rparr>"

definition example_auth_host :: HostRule where
  "example_auth_host =
     \<lparr>host_Pattern = ''api.example.com'', host_Port = 80, host_Target = ''primary'',
      host_Middlewares = [''auth''], host_RouteRules = [example_auth_route]\<rparr>"

definition example_auth_handler :: ProxyHandler where
  "example_auth_handler =
     \<lparr>ph_hostMatcher = NewHostMatcher_of [example_auth_host],
      ph_services = example_services,
      ph_factory = [''auth'' \<mapsto> (\<lambda>config. Some example_auth)],
      cfg_HostRules = [example_auth_host],
      cfg_Middlewares = []\<rparr>"

text \<open>
  A balancer with four backends, the second of them inactive and the last with the
  weight 0, and a balancer whose second backend has two open connections. The network
  of the examples answers the health URL of the first backend with a given status and
  fails for every other URL.
\<close>

definition example_health :: HealthCheckConfig where
  "example_health = \<lparr>hc_Enabled = True, hc_Interval = 30000000000, hc_Timeout = 5000000000,
     hc_Path = ''/health''\<rparr>"

definition example_backend :: "string \<Rightarrow> int \<Rightarrow> bool \<Rightarrow> int \<Rightarrow> Backend" where
  "example_backend url weight active connections =
     \<lparr>be_URL = url, be_Weight = weight, be_Active = active, be_Connections = connections,
      be_ResponseTime = 0,
      be_HealthCheck = \<lparr>hc_Enabled = False, hc_Interval = 0, hc_Timeout = 0, hc_Path = []\<rparr>\<rparr>"

definition example_wrr :: WeightedRoundRobinLoadBalancer where
  "example_wrr =
     NewWeightedRoundRobinLoadBalancer example_health
       [example_backend ''http://10.0.0.1:8080'' 3 True 0,
        example_backend ''http://10.0.0.2:8080'' 5 False 0,
        example_backend ''http://10.0.0.3:8080'' 2 True 0,
        example_backend ''http://10.0.0.4:8080'' 0 True 0]"

definition example_lb :: BaseLoadBalancer where
  "example_lb =
     \<lparr>lb_HealthCheck = example_health,
      lb_backends = [example_backend ''http://10.0.0.1:8080'' 1 True 0,
                     example_backend ''http://10.0.0.2:8080'' 1 True 2]\<rparr>"

definition example_network :: "int \<Rightarrow> network" where
  "example_network code = (\<lambda>url timeout. if url = ''http://10.0.0.1:8080/health'' then Status code else DoError)"

chapter \<open>Properties\<close>

section \<open>Response body rewriting\<close>


section \<open>The host matcher\<close>

text \<open>
  Claim C1. \<open>HostMatcher.Match\<close> is claimed to try, after the exact and the wildcard
  patterns, the patterns that begin with \<open>^\<close> and end with \<open>$\<close> as regular
  expressions. The function has no such step: with the single rule
  \<open>^api[0-9]+[.]example[.]com$\<close> for \<open>api-service\<close>, the host \<open>api1.example.com\<close>,
  which the expression matches, is answered with the empty target and \<open>false\<close>.
\<close>

theorem Match_never_tries_regex:
  "Match (NewHostMatcher_of
            [\<lparr>host_Pattern = ''^api[0-9]+[.]example[.]com$'', host_Port = 80,
              host_Target = ''api-service'', host_Middlewares = [], host_RouteRules = []\<rparr>])
     ''api1.example.com'' = ([], False)"
  by (simp add: Match_def HasPrefix_def NewHostMatcher_of_def AddRule_def)

section \<open>The dispatcher\<close>

text \<open>
  Claim C2. The chain assembled for a request is claimed to contain each middleware
  name at most once across the route, host and global scopes. The host-level loop adds
  every name of the host rule without looking at the route rule: when the matched route
  rule and its host rule both list \<open>auth\<close>, the chain holds \<open>auth\<close> twice.
\<close>

theorem createDynamicMiddlewareChain_duplicate:
  "determineTarget example_stdlib example_auth_handler
     (example_request ''api.example.com'' ''/api/users'' [])
   = Inr (\<lparr>svc_URL = ''http://127.0.0.1:9002'', svc_ProxyHost = []\<rparr>,
          example_auth_host, Some example_auth_route)
   \<and> GetMiddlewareNames
       (createDynamicMiddlewareChain example_auth_handler None
          (Some example_auth_host) (Some example_auth_route))
     = [''auth'', ''auth'']"
  by (simp add: determineTarget_def example_auth_handler_def example_request_def Match_def
        strip_port_def example_services_def NewHostMatcher_of_def AddRule_def
        example_auth_host_def example_auth_route_def HasSuffix_def HasPrefix_def
        suffix_to_prefix GetMiddlewareNames_def createDynamicMiddlewareChain_def
        CreateMiddleware_def enabledMiddlewares_of_def alreadyAdded_def example_auth_def)

text \<open>
  Claim C3. Route rules are claimed to support exact path equality next to
  \<open>prefix/*\<close> and anchored regular expressions. \<open>determineTarget\<close> compares a pattern
  for equality with the path only when both are \<open>/\<close>: the route rule \<open>/ws\<close> does not
  match the path \<open>/ws\<close>, and the request is given to the host rule's own target with no
  route rule matched.
\<close>

theorem determineTarget_exact_path_ignored:
  "determineTarget lib example_ws_handler (example_request ''example.com'' ''/ws'' [])
   = Inr (\<lparr>svc_URL = ''http://127.0.0.1:9001'', svc_ProxyHost = []\<rparr>, example_ws_host, None)"
  by (simp add: determineTarget_def example_ws_handler_def example_request_def Match_def
        strip_port_def example_services_def NewHostMatcher_of_def AddRule_def
        example_ws_host_def example_ws_route_def HasSuffix_def HasPrefix_def suffix_to_prefix)

text \<open>
  Claim C4. When the middleware chain of a request completes and has stored a service
  name under \<open>dynamic_target_service\<close>: if the name is that of a configured service,
  the reverse proxy is created for that service, in place of the statically matched one,
  and the context's target URL and service name are those of that service; if the name is
  not that of a configured service, the statically matched target is kept.
\<close>

theorem ServeHTTP_dynamic_target:
  assumes "determineTarget lib ph r = Inr (targetService, hostRule, routeRule)"
    and "Execute (createDynamicMiddlewareChain ph registry (Some hostRule) routeRule)
           \<lparr>ctx_Request = r, ctx_Values = Map.empty, ctx_TargetURL = svc_URL targetService,
            ctx_ServiceName = getServiceName lib (svc_URL targetService), ctx_StatusCode = 0\<rparr>
         = (True, ctx)"
    and "ctx_Values ctx ''dynamic_target_service'' = Some (VString name)"
  shows "ServeHTTP lib ph registry r =
           (case ph_services ph name of
              Some service \<Rightarrow>
                ReverseProxy service
                  (ctx\<lparr>ctx_TargetURL := svc_URL service,
                        ctx_ServiceName := getServiceName lib (svc_URL service)\<rparr>)
            | None \<Rightarrow> ReverseProxy targetService ctx)"
  using assms by (simp add: ServeHTTP_def dynamic_target_def split: option.splits)

lemma example_dynamic_determineTarget:
  "determineTarget example_stdlib (example_dynamic_handler t)
     (example_request ''app.example.com:8080'' ''/'' [])
   = Inr (\<lparr>svc_URL = ''http://127.0.0.1:9001'', svc_ProxyHost = []\<rparr>, example_dynamic_host, None)"
  by (simp add: determineTarget_def example_dynamic_handler_def example_request_def Match_def
        strip_port_def example_services_def NewHostMatcher_of_def AddRule_def
        example_dynamic_host_def)

lemma example_dynamic_Execute:
  "Execute (createDynamicMiddlewareChain (example_dynamic_handler t) None
              (Some example_dynamic_host) None)
     \<lparr>ctx_Request = r, ctx_Values = Map.empty, ctx_TargetURL = u, ctx_ServiceName = n,
      ctx_StatusCode = 0\<rparr>
   = (True,
      \<lparr>ctx_Request = r,
       ctx_Values = (if t \<noteq> [] then [''dynamic_target_service'' \<mapsto> VString t] else Map.empty),
       ctx_TargetURL = u, ctx_ServiceName = n, ctx_StatusCode = 0\<rparr>)"
  by (simp add: createDynamicMiddlewareChain_def example_dynamic_handler_def
        CreateMiddleware_def enabledMiddlewares_of_def alreadyAdded_def
        example_dynamic_route_def example_dynamic_host_def)

text \<open>
  The theorem at work: the host rule sends \<open>app.example.com\<close> to \<open>primary\<close>; a stored
  \<open>alt\<close> moves the request to the service \<open>alt\<close>, a stored \<open>missing\<close>, which names
  no service, leaves it with \<open>primary\<close>.
\<close>

theorem ServeHTTP_dynamic_target_witness:
  "ServeHTTP example_stdlib (example_dynamic_handler ''alt'') None
     (example_request ''app.example.com:8080'' ''/'' [])
   = ReverseProxy \<lparr>svc_URL = ''http://127.0.0.1:9002'', svc_ProxyHost = []\<rparr>
       \<lparr>ctx_Request = example_request ''app.example.com:8080'' ''/'' [],
        ctx_Values = [''dynamic_target_service'' \<mapsto> VString ''alt''],
        ctx_TargetURL = ''http://127.0.0.1:9002'', ctx_ServiceName = ''127.0.0.1'',
        ctx_StatusCode = 0\<rparr>
   \<and> ServeHTTP example_stdlib (example_dynamic_handler ''missing'') None
       (example_request ''app.example.com:8080'' ''/'' [])
     = ReverseProxy \<lparr>svc_URL = ''http://127.0.0.1:9001'', svc_ProxyHost = []\<rparr>
         \<lparr>ctx_Request = example_request ''app.example.com:8080'' ''/'' [],
          ctx_Values = [''dynamic_target_service'' \<mapsto> VString ''missing''],
          ctx_TargetURL = ''http://127.0.0.1:9001'', ctx_ServiceName = ''127.0.0.1'',
          ctx_StatusCode = 0\<rparr>"
proof -
  have alt:
    "ServeHTTP example_stdlib (example_dynamic_handler ''alt'') None
       (example_request ''app.example.com:8080'' ''/'' [])
     = ReverseProxy \<lparr>svc_URL = ''http://127.0.0.1:9002'', svc_ProxyHost = []\<rparr>
         \<lparr>ctx_Request = example_request ''app.example.com:8080'' ''/'' [],
          ctx_Values = [''dynamic_target_service'' \<mapsto> VString ''alt''],
          ctx_TargetURL = ''http://127.0.0.1:9002'', ctx_ServiceName = ''127.0.0.1'',
          ctx_StatusCode = 0\<rparr>"
    using ServeHTTP_dynamic_target
            [OF example_dynamic_determineTarget [of "''alt''"]
                example_dynamic_Execute [of "''alt''"], of "''alt''"]
    by (simp add: example_dynamic_handler_def example_services_def getServiceName_def
          example_stdlib_def)
  have missing:
    "ServeHTTP example_stdlib (example_dynamic_handler ''missing'') None
       (example_request ''app.example.com:8080'' ''/'' [])
     = ReverseProxy \<lparr>svc_URL = ''http://127.0.0.1:9001'', svc_ProxyHost = []\<rparr>
         \<lparr>ctx_Request = example_request ''app.example.com:8080'' ''/'' [],
          ctx_Values = [''dynamic_target_service'' \<mapsto> VString ''missing''],
          ctx_TargetURL = ''http://127.0.0.1:9001'', ctx_ServiceName = ''127.0.0.1'',
          ctx_StatusCode = 0\<rparr>"
    using ServeHTTP_dynamic_target
            [OF example_dynamic_determineTarget [of "''missing''"]
                example_dynamic_Execute [of "''missing''"], of "''missing''"]
    by (simp add: example_dynamic_handler_def example_services_def getServiceName_def
          example_stdlib_def)
  from alt missing show ?thesis by simp
qed

section \<open>Header lookup\<close>

text \<open>
  The canonical forms of the field names that the embedded functions look up. Two of
  them differ from the spelling in the source.
\<close>

lemma canonical_keys:
  "CanonicalMIMEHeaderKey ''Connection'' = ''Connection''"
  "CanonicalMIMEHeaderKey ''Upgrade'' = ''Upgrade''"
  "CanonicalMIMEHeaderKey ''Sec-WebSocket-Version'' = ''Sec-Websocket-Version''"
  "CanonicalMIMEHeaderKey ''Sec-WebSocket-Key'' = ''Sec-Websocket-Key''"
  "CanonicalMIMEHeaderKey ''X-Forwarded-For'' = ''X-Forwarded-For''"
  "CanonicalMIMEHeaderKey ''X-Real-IP'' = ''X-Real-Ip''"
  by code_simp+

section \<open>WebSocket upgrade detection\<close>

text \<open>
  Claim C5, as stated: a request is classified as a WebSocket upgrade when any one of
  the listed conditions holds. It fails: a request that carries
  \<open>Sec-WebSocket-Version: 13\<close> and a non-empty \<open>Sec-WebSocket-Key\<close>, two of the
  listed conditions, but no \<open>Connection\<close> and no \<open>Upgrade\<close> header, is not classified
  as an upgrade. The header table is the one the server builds for this request, with
  the two names in canonical form.
\<close>

theorem isWebSocketUpgrade_one_condition_not_enough:
  "Header_Get (example_request ''example.com'' ''/chat''
       [(''Sec-Websocket-Version'', ''13''),
        (''Sec-Websocket-Key'', ''dGhlIHNhbXBsZSBub25jZQ=='')])
     ''Sec-WebSocket-Version'' = ''13''
   \<and> Header_Get (example_request ''example.com'' ''/chat''
       [(''Sec-Websocket-Version'', ''13''),
        (''Sec-Websocket-Key'', ''dGhlIHNhbXBsZSBub25jZQ=='')])
     ''Sec-WebSocket-Key'' \<noteq> []
   \<and> \<not> isWebSocketUpgrade example_stdlib (example_request ''example.com'' ''/chat''
       [(''Sec-Websocket-Version'', ''13''),
        (''Sec-Websocket-Key'', ''dGhlIHNhbXBsZSBub25jZQ=='')])"
  by (simp add: isWebSocketUpgrade_def Header_Get_def example_request_def canonical_keys
        example_stdlib_def example_ToLower_def)

text \<open>
  Claim C5, amended: a request is classified as a WebSocket upgrade if and only if all
  of these hold: the \<open>Connection\<close> header, put in lower case by \<open>strings.ToLower\<close>,
  contains \<open>upgrade\<close>; the \<open>Upgrade\<close> header, put in lower case by
  \<open>strings.ToLower\<close>, equals \<open>websocket\<close>; the \<open>Sec-WebSocket-Version\<close> header is
  \<open>13\<close>; and the \<open>Sec-WebSocket-Key\<close> header is not empty. Each header is looked up
  under the canonical form of its name. The statement holds for every request and for
  \<open>strings.ToLower\<close> as the standard library defines it, on header values of any bytes.
\<close>

theorem isWebSocketUpgrade_iff:
  "isWebSocketUpgrade lib r \<longleftrightarrow>
     Contains (strings_ToLower lib (Header_Get r ''Connection'')) ''upgrade''
     \<and> strings_ToLower lib (Header_Get r ''Upgrade'') = ''websocket''
     \<and> Header_Get r ''Sec-WebSocket-Version'' = ''13''
     \<and> Header_Get r ''Sec-WebSocket-Key'' \<noteq> []"
  by (simp add: isWebSocketUpgrade_def Let_def)

text \<open>
  A handshake request as a browser sends it is classified as an upgrade. The header
  table is the one the server builds for it: the fields sent as \<open>Sec-WebSocket-Version\<close>
  and \<open>Sec-WebSocket-Key\<close> stand under the canonical forms of these names, and the
  values of \<open>Connection\<close> and \<open>Upgrade\<close> are in mixed case.
\<close>

theorem isWebSocketUpgrade_iff_witness:
  "isWebSocketUpgrade example_stdlib (example_request ''example.com'' ''/chat''
       [(''Connection'', ''keep-alive, Upgrade''), (''Upgrade'', ''WebSocket''),
        (''Sec-Websocket-Version'', ''13''),
        (''Sec-Websocket-Key'', ''dGhlIHNhbXBsZSBub25jZQ=='')])"
  unfolding isWebSocketUpgrade_iff Header_Get_def example_request_def canonical_keys
  by code_simp

section \<open>The client address of the rate limiter\<close>

text \<open>
  Claim C9. The rate limiter is claimed to take as the client address the first
  comma-separated segment of \<open>X-Forwarded-For\<close>. \<open>getClientIP\<close> of the rate limiter
  returns the header as it is: for \<open>203.0.113.7, 10.0.0.1\<close> the limiter's key is the
  whole list, not \<open>203.0.113.7\<close>. The request also carries \<open>X-Real-IP\<close>, which stands
  in the header table under the canonical form \<open>X-Real-Ip\<close> of its name.
\<close>

theorem getClientIP_whole_header:
  "getClientIP (example_request ''example.com'' ''/''
      [(''X-Forwarded-For'', ''203.0.113.7, 10.0.0.1''), (''X-Real-Ip'', ''10.0.0.1'')])
   = ''203.0.113.7, 10.0.0.1''"
  by (simp add: getClientIP_def Header_Get_def example_request_def canonical_keys)

section \<open>The load balancer\<close>

subsection \<open>Arithmetic within the range of \<open>int\<close>\<close>

lemma wrap64_id: "- (2 ^ 63) \<le> x \<Longrightarrow> x < 2 ^ 63 \<Longrightarrow> wrap64 x = x"
  by (simp add: wrap64_def)

lemma go_rem_nonneg: "0 \<le> a \<Longrightarrow> 0 < b \<Longrightarrow> go_rem a b = a mod b"
  by (simp add: go_rem_def smod_int_alt_def sgn_if)

subsection \<open>Connection counters\<close>

lemma Increment_bounded:
  "conn_bounded N bs \<Longrightarrow> N + 1 < 2 ^ 63 \<Longrightarrow> conn_bounded (N + 1) (IncrementConnection_loop url bs)"
proof (induction bs)
  case Nil
  then show ?case by (simp add: conn_bounded_def)
next
  case (Cons b bs)
  then have b: "0 \<le> be_Connections b" "be_Connections b \<le> N" and bs: "conn_bounded N bs"
    by (simp_all add: conn_bounded_def)
  from b Cons.prems(2) have w: "wrap64 (be_Connections b + 1) = be_Connections b + 1"
    by (intro wrap64_id) simp_all
  have mono: "conn_bounded (N + 1) bs"
    using bs by (auto simp: conn_bounded_def list_all_iff)
  show ?case
  proof (cases "be_URL b = url")
    case True
    then show ?thesis using b w mono by (simp add: conn_bounded_def)
  next
    case False
    then show ?thesis using b Cons.IH [OF bs Cons.prems(2)] by (simp add: conn_bounded_def)
  qed
qed

lemma Decrement_bounded:
  "conn_bounded N bs \<Longrightarrow> N < 2 ^ 63 \<Longrightarrow> conn_bounded N (DecrementConnection_loop url bs)"
proof (induction bs)
  case Nil
  then show ?case by (simp add: conn_bounded_def)
next
  case (Cons b bs)
  then have b: "0 \<le> be_Connections b" "be_Connections b \<le> N" and bs: "conn_bounded N bs"
    by (simp_all add: conn_bounded_def)
  have w: "be_Connections b > 0 \<Longrightarrow> wrap64 (be_Connections b - 1) = be_Connections b - 1"
    using b Cons.prems(2) by (intro wrap64_id) simp_all
  show ?case
  proof (cases "be_URL b = url")
    case True
    then show ?thesis using b w bs by (simp add: conn_bounded_def)
  next
    case False
    then show ?thesis using b Cons.IH [OF bs Cons.prems(2)] by (simp add: conn_bounded_def)
  qed
qed

lemma conn_bounded_mono: "conn_bounded N bs \<Longrightarrow> N \<le> M \<Longrightarrow> conn_bounded M bs"
  by (auto simp: conn_bounded_def list_all_iff)

lemma connection_calls_bounded:
  "conn_bounded N (lb_backends lb) \<Longrightarrow> N + int (length calls) < 2 ^ 63 \<Longrightarrow>
   conn_bounded (N + int (length calls)) (lb_backends (connection_calls calls lb))"
proof (induction calls arbitrary: lb N)
  case Nil
  then show ?case by (simp add: connection_calls_def)
next
  case (Cons c calls)
  have step: "conn_bounded (N + 1) (lb_backends (connection_step c lb))"
  proof (cases c)
    case (Increment url)
    then show ?thesis
      using Increment_bounded [OF Cons.prems(1), of url] Cons.prems(2)
      by (simp add: IncrementConnection_def)
  next
    case (Decrement url)
    then show ?thesis
      using Decrement_bounded [OF Cons.prems(1), of url] Cons.prems(2)
      by (auto simp add: DecrementConnection_def intro: conn_bounded_mono)
  qed
  have "conn_bounded (N + 1 + int (length calls))
          (lb_backends (connection_calls calls (connection_step c lb)))"
    using Cons.prems(2) by (intro Cons.IH [OF step]) simp
  then show ?case by (simp add: connection_calls_def algebra_simps)
qed

lemma Decrement_Increment_loop:
  "list_all (\<lambda>b. 0 \<le> be_Connections b \<and> be_Connections b + 1 < 2 ^ 63) bs \<Longrightarrow>
   DecrementConnection_loop url (IncrementConnection_loop url bs) = bs"
proof (induction bs)
  case Nil
  then show ?case by simp
next
  case (Cons b bs)
  then have b: "0 \<le> be_Connections b" "be_Connections b + 1 < 2 ^ 63" by simp_all
  then have w: "wrap64 (be_Connections b + 1) = be_Connections b + 1"
    by (intro wrap64_id) simp_all
  have w2: "wrap64 (be_Connections b) = be_Connections b"
    using b by (intro wrap64_id) simp_all
  show ?case using Cons b by (simp add: w w2)
qed

lemma Decrement_at_zero:
  "map_option be_Connections (find (\<lambda>backend. be_URL backend = url) bs) = Some 0 \<Longrightarrow>
   DecrementConnection_loop url bs = bs"
  by (induction bs) (auto split: if_splits)

text \<open>
  Claim C7. Take a balancer whose counters are not negative, and a sequence of
  \<open>IncrementConnection\<close> and \<open>DecrementConnection\<close> calls short enough that no counter
  can reach the largest value of the type \<open>int\<close>. Then after every prefix of the
  sequence every counter is at least 0; \<open>DecrementConnection\<close> on a backend whose
  counter is 0 changes nothing and leaves the counter at 0; and an
  \<open>IncrementConnection\<close> followed by the \<open>DecrementConnection\<close> of the same URL gives
  back the balancer as it was.
\<close>

theorem Connections_never_negative:
  assumes nonneg: "\<forall>backend\<in>set (lb_backends lb). 0 \<le> be_Connections backend"
    and range: "\<forall>backend\<in>set (lb_backends lb).
                  be_Connections backend + int (length calls) < 2 ^ 63 - 1"
  shows "(\<forall>n\<le>length calls.
            \<forall>backend\<in>set (lb_backends (connection_calls (take n calls) lb)).
              0 \<le> be_Connections backend)
       \<and> (Connections_of url lb = Some 0 \<longrightarrow>
            DecrementConnection url lb = lb
            \<and> Connections_of url (DecrementConnection url lb) = Some 0)
       \<and> DecrementConnection url (IncrementConnection url lb) = lb"
proof (intro conjI allI impI ballI)
  let ?N = "2 ^ 63 - 2 - int (length calls)"
  have bounded: "conn_bounded ?N (lb_backends lb)"
    using nonneg range by (auto simp: conn_bounded_def list_all_iff)
  {
    fix n backend
    assume n: "n \<le> length calls"
      and b: "backend \<in> set (lb_backends (connection_calls (take n calls) lb))"
    have "conn_bounded (?N + int (length (take n calls)))
            (lb_backends (connection_calls (take n calls) lb))"
      using n by (intro connection_calls_bounded [OF bounded]) simp
    with b show "0 \<le> be_Connections backend"
      by (simp add: conn_bounded_def list_all_iff)
  }
  {
    assume z: "Connections_of url lb = Some 0"
    then have "DecrementConnection_loop url (lb_backends lb) = lb_backends lb"
      unfolding Connections_of_def by (rule Decrement_at_zero)
    then show d: "DecrementConnection url lb = lb"
      by (simp add: DecrementConnection_def)
    show "Connections_of url (DecrementConnection url lb) = Some 0"
      by (simp add: d z)
  }
  have "list_all (\<lambda>b. 0 \<le> be_Connections b \<and> be_Connections b + 1 < 2 ^ 63) (lb_backends lb)"
    using nonneg range by (auto simp: list_all_iff)
  then have "DecrementConnection_loop url (IncrementConnection_loop url (lb_backends lb))
             = lb_backends lb"
    by (rule Decrement_Increment_loop)
  then show "DecrementConnection url (IncrementConnection url lb) = lb"
    by (simp add: DecrementConnection_def IncrementConnection_def)
qed

text \<open>
  The theorem at work: a decrement at 0, a pair, and decrements of both backends leave
  the counters at 0 and 1.
\<close>

theorem Connections_never_negative_witness:
  "map be_Connections
     (lb_backends
        (connection_calls
           [Decrement ''http://10.0.0.1:8080'', Increment ''http://10.0.0.1:8080'',
            Decrement ''http://10.0.0.2:8080'', Decrement ''http://10.0.0.1:8080'',
            Decrement ''http://10.0.0.1:8080''] example_lb)) = [0, 1]
   \<and> DecrementConnection ''http://10.0.0.1:8080'' example_lb = example_lb
   \<and> DecrementConnection ''http://10.0.0.2:8080''
       (IncrementConnection ''http://10.0.0.2:8080'' example_lb) = example_lb"
  using Connections_never_negative
          [of example_lb
              "[Decrement ''http://10.0.0.1:8080'', Increment ''http://10.0.0.1:8080'',
                Decrement ''http://10.0.0.2:8080'', Decrement ''http://10.0.0.1:8080'',
                Decrement ''http://10.0.0.1:8080'']"
              "''http://10.0.0.1:8080''"]
        Connections_never_negative [of example_lb "[]" "''http://10.0.0.2:8080''"]
  by (simp add: example_lb_def example_backend_def Connections_of_def connection_calls_def
        IncrementConnection_def DecrementConnection_def wrap64_def)

subsection \<open>Health probes\<close>

lemma checkBackend_Active:
  "hc_Enabled (be_HealthCheck backend) \<or> hc_Enabled lbHealthCheck \<Longrightarrow>
   be_Active (checkBackend net lbHealthCheck backend)
     = healthy_answer (probe_answer net lbHealthCheck backend)"
  by (auto simp: checkBackend_def probe_backend_def probe_answer_def healthy_answer_def Let_def
        split: probe_result.splits)

lemma checkBackend_writes_Active:
  "checkBackend net lbHealthCheck backend
   = backend\<lparr>be_Active := be_Active (checkBackend net lbHealthCheck backend)\<rparr>"
  by (simp add: checkBackend_def probe_backend_def Let_def split: probe_result.splits)

lemma checkBackend_only_Active:
  "\<exists>a. checkBackend net lbHealthCheck backend = backend\<lparr>be_Active := a\<rparr>"
  using checkBackend_writes_Active by blast

lemma checkBackend_Active_update [simp]:
  "checkBackend net lbHealthCheck (backend\<lparr>be_Active := a\<rparr>)
   = checkBackend net lbHealthCheck backend"
  by (simp add: checkBackend_def probe_backend_def Let_def split: probe_result.splits)

lemma probe_answer_Active_update [simp]:
  "probe_answer net lbHealthCheck (backend\<lparr>be_Active := a\<rparr>)
   = probe_answer net lbHealthCheck backend"
  by (simp add: probe_answer_def Let_def)

lemma checkBackend_idem:
  "checkBackend net lbHealthCheck (checkBackend net lbHealthCheck backend)
   = checkBackend net lbHealthCheck backend"
proof -
  obtain a where "checkBackend net lbHealthCheck backend = backend\<lparr>be_Active := a\<rparr>"
    using checkBackend_only_Active by blast
  then show ?thesis by simp
qed

lemma probes_only_Active:
  "\<exists>a. probes nets lbHealthCheck backend = backend\<lparr>be_Active := a\<rparr>"
proof (induction nets arbitrary: backend)
  case Nil
  have "backend = backend\<lparr>be_Active := be_Active backend\<rparr>" by simp
  then show ?case unfolding probes_def fold_simps by blast
next
  case (Cons net nets)
  obtain a where a: "checkBackend net lbHealthCheck backend = backend\<lparr>be_Active := a\<rparr>"
    using checkBackend_only_Active by blast
  obtain a' where "probes nets lbHealthCheck (backend\<lparr>be_Active := a\<rparr>)
                   = backend\<lparr>be_Active := a, be_Active := a'\<rparr>"
    using Cons [of "backend\<lparr>be_Active := a\<rparr>"] by blast
  then have "probes (net # nets) lbHealthCheck backend = backend\<lparr>be_Active := a'\<rparr>"
    by (simp add: probes_def a)
  then show ?case by blast
qed

lemma probes_last:
  assumes en: "hc_Enabled (be_HealthCheck backend) \<or> hc_Enabled lbHealthCheck"
    and ne: "nets \<noteq> []"
  shows "be_Active (probes nets lbHealthCheck backend)
         = healthy_answer (probe_answer (last nets) lbHealthCheck backend)"
proof -
  obtain a where a: "probes (butlast nets) lbHealthCheck backend = backend\<lparr>be_Active := a\<rparr>"
    using probes_only_Active by blast
  have "probes nets lbHealthCheck backend
        = checkBackend (last nets) lbHealthCheck (probes (butlast nets) lbHealthCheck backend)"
    using ne by (subst append_butlast_last_id [symmetric, OF ne]) (simp add: probes_def del: append_butlast_last_id)
  then have "probes nets lbHealthCheck backend = checkBackend (last nets) lbHealthCheck backend"
    by (simp add: a)
  then show ?thesis using en by (simp add: checkBackend_Active)
qed

text \<open>
  Claim C8. Where health checking is enabled for the backend or for the balancer, a
  probe leaves \<open>Active\<close> true exactly when the answer is a response with a status from
  200 up to 299, and false on either error. Probing is idempotent: a second probe
  against the same network changes nothing. One or more consecutive probes that are all
  answered healthily leave \<open>Active\<close> true, whatever it was before, and one or more
  consecutive probes none of which is answered healthily leave it false.
\<close>

theorem checkBackend_idempotent:
  assumes enabled: "hc_Enabled (be_HealthCheck backend) \<or> hc_Enabled lbHealthCheck"
  shows "be_Active (checkBackend net lbHealthCheck backend)
           = (case probe_answer net lbHealthCheck backend of
                Status code \<Rightarrow> 200 \<le> code \<and> code < 300
              | NewRequestError \<Rightarrow> False
              | DoError \<Rightarrow> False)
     \<and> checkBackend net lbHealthCheck (checkBackend net lbHealthCheck backend)
         = checkBackend net lbHealthCheck backend
     \<and> (nets \<noteq> [] \<and> (\<forall>net\<in>set nets. healthy_answer (probe_answer net lbHealthCheck backend))
          \<longrightarrow> be_Active (probes nets lbHealthCheck backend))
     \<and> (nets \<noteq> [] \<and> (\<forall>net\<in>set nets. \<not> healthy_answer (probe_answer net lbHealthCheck backend))
          \<longrightarrow> \<not> be_Active (probes nets lbHealthCheck backend))"
proof (intro conjI impI)
  show "be_Active (checkBackend net lbHealthCheck backend)
           = (case probe_answer net lbHealthCheck backend of
                Status code \<Rightarrow> 200 \<le> code \<and> code < 300
              | NewRequestError \<Rightarrow> False
              | DoError \<Rightarrow> False)"
    using enabled
    by (simp add: checkBackend_Active healthy_answer_def split: probe_result.splits)
  show "checkBackend net lbHealthCheck (checkBackend net lbHealthCheck backend)
         = checkBackend net lbHealthCheck backend"
    by (rule checkBackend_idem)
  {
    assume "nets \<noteq> [] \<and> (\<forall>net\<in>set nets. healthy_answer (probe_answer net lbHealthCheck backend))"
    then show "be_Active (probes nets lbHealthCheck backend)"
      using probes_last [OF enabled, of nets] by simp
  }
  {
    assume "nets \<noteq> [] \<and> (\<forall>net\<in>set nets. \<not> healthy_answer (probe_answer net lbHealthCheck backend))"
    then show "\<not> be_Active (probes nets lbHealthCheck backend)"
      using probes_last [OF enabled, of nets] by simp
  }
qed

text \<open>
  The theorem at work: three healthy answers raise an inactive backend, two failing
  ones take an active backend down, and a backend whose probe fails in transport is
  taken down.
\<close>

theorem checkBackend_idempotent_witness:
  "be_Active (probes [example_network 200, example_network 204, example_network 200] example_health
     (example_backend ''http://10.0.0.1:8080'' 1 False 0))
   \<and> \<not> be_Active (probes [example_network 500, example_network 503] example_health
     (example_backend ''http://10.0.0.1:8080'' 1 True 0))
   \<and> \<not> be_Active (checkBackend (example_network 200) example_health
     (example_backend ''http://10.0.0.2:8080'' 1 True 0))"
  using checkBackend_idempotent
          [of "example_backend ''http://10.0.0.1:8080'' 1 False 0" example_health
              "example_network 200"
              "[example_network 200, example_network 204, example_network 200]"]
        checkBackend_idempotent
          [of "example_backend ''http://10.0.0.1:8080'' 1 True 0" example_health
              "example_network 500" "[example_network 500, example_network 503]"]
        checkBackend_idempotent
          [of "example_backend ''http://10.0.0.2:8080'' 1 True 0" example_health
              "example_network 200" "[]"]
  by (simp add: example_health_def example_backend_def example_network_def probe_answer_def
        healthy_answer_def)

subsection \<open>Weighted round robin\<close>

lemma effective_weight_pos: "0 < effective_weight b"
  by (simp add: effective_weight_def)

lemma cumulative_weight_0 [simp]: "cumulative_weight 0 xs = 0"
  by (simp add: cumulative_weight_def)

lemma cumulative_weight_Cons [simp]:
  "cumulative_weight (Suc k) ((p, b) # xs) = effective_weight b + cumulative_weight k xs"
  by (simp add: cumulative_weight_def)

lemma cumulative_weight_Nil [simp]: "cumulative_weight k [] = 0"
  by (simp add: cumulative_weight_def)

lemma sum_of_weights_Nil [simp]: "sum_of_weights [] = 0"
  by (simp add: sum_of_weights_def)

lemma sum_of_weights_Cons [simp]:
  "sum_of_weights ((p, b) # xs) = effective_weight b + sum_of_weights xs"
  by (simp add: sum_of_weights_def)

lemma sum_of_weights_nonneg: "0 \<le> sum_of_weights xs"
proof (induction xs)
  case Nil
  show ?case by simp
next
  case (Cons x xs)
  obtain p b where x: "x = (p, b)" by (cases x)
  show ?case using Cons effective_weight_pos [of b] by (simp add: x)
qed

lemma sum_of_weights_pos: "xs \<noteq> [] \<Longrightarrow> 0 < sum_of_weights xs"
proof (cases xs)
  case Nil
  then show "xs \<noteq> [] \<Longrightarrow> ?thesis" by simp
next
  case (Cons x ys)
  obtain p b where x: "x = (p, b)" by (cases x)
  show ?thesis
    using effective_weight_pos [of b] sum_of_weights_nonneg [of ys] by (simp add: Cons x)
qed

lemma totalWeight_loop_sum:
  "0 \<le> acc \<Longrightarrow> acc + sum_of_weights xs < 2 ^ 63 \<Longrightarrow>
   totalWeight_loop acc xs = acc + sum_of_weights xs"
proof (induction xs arbitrary: acc)
  case Nil
  then show ?case by simp
next
  case (Cons x xs)
  obtain p b where x: "x = (p, b)" by (cases x)
  have pos: "0 < effective_weight b" by (rule effective_weight_pos)
  have rest: "0 \<le> sum_of_weights xs" by (rule sum_of_weights_nonneg)
  have bound: "acc + effective_weight b + sum_of_weights xs < 2 ^ 63"
    using Cons.prems(2) by (simp add: x)
  have w: "wrap64 (acc + effective_weight b) = acc + effective_weight b"
    using Cons.prems(1) pos rest bound by (intro wrap64_id) linarith+
  have "totalWeight_loop (acc + effective_weight b) xs
        = acc + effective_weight b + sum_of_weights xs"
    using Cons.prems(1) pos bound by (intro Cons.IH) linarith+
  then show ?case
    using w by (simp add: x effective_weight_def split: if_splits)
qed

lemma select_loop_first:
  "0 \<le> cur \<Longrightarrow> cur + sum_of_weights xs < 2 ^ 63 \<Longrightarrow> t < cur + sum_of_weights xs \<Longrightarrow>
   cur \<le> t \<Longrightarrow>
   \<exists>k<length xs.
      select_loop t cur xs = Some (fst (xs ! k))
      \<and> t < cur + cumulative_weight (Suc k) xs
      \<and> (\<forall>j<k. cur + cumulative_weight (Suc j) xs \<le> t)"
proof (induction xs arbitrary: cur)
  case Nil
  then show ?case by simp
next
  case (Cons x xs)
  obtain p b where x: "x = (p, b)" by (cases x)
  have pos: "0 < effective_weight b" by (rule effective_weight_pos)
  have rest: "0 \<le> sum_of_weights xs" by (rule sum_of_weights_nonneg)
  have bound: "cur + effective_weight b + sum_of_weights xs < 2 ^ 63"
    using Cons.prems(2) by (simp add: x)
  have w: "wrap64 (cur + effective_weight b) = cur + effective_weight b"
    using Cons.prems(1) pos rest bound by (intro wrap64_id) linarith+
  have unfold: "select_loop t cur (x # xs) =
      (if t < cur + effective_weight b then Some p
       else select_loop t (cur + effective_weight b) xs)"
    using w by (simp add: x effective_weight_def Let_def)
  show ?case
  proof (cases "t < cur + effective_weight b")
    case True
    then have "select_loop t cur (x # xs) = Some (fst ((x # xs) ! 0))
      \<and> t < cur + cumulative_weight (Suc 0) (x # xs)
      \<and> (\<forall>j<0. cur + cumulative_weight (Suc j) (x # xs) \<le> t)"
      using unfold by (simp add: x)
    then show ?thesis by blast
  next
    case False
    have "\<exists>k<length xs.
      select_loop t (cur + effective_weight b) xs = Some (fst (xs ! k))
      \<and> t < cur + effective_weight b + cumulative_weight (Suc k) xs
      \<and> (\<forall>j<k. cur + effective_weight b + cumulative_weight (Suc j) xs \<le> t)"
      using Cons.prems pos bound False by (intro Cons.IH) (simp_all add: x)
    then obtain k where k: "k < length xs"
      "select_loop t (cur + effective_weight b) xs = Some (fst (xs ! k))"
      "t < cur + effective_weight b + cumulative_weight (Suc k) xs"
      "\<forall>j<k. cur + effective_weight b + cumulative_weight (Suc j) xs \<le> t"
      by blast
    have first: "\<forall>j<Suc k. cur + cumulative_weight (Suc j) (x # xs) \<le> t"
    proof (intro allI impI)
      fix j assume j: "j < Suc k"
      show "cur + cumulative_weight (Suc j) (x # xs) \<le> t"
      proof (cases j)
        case 0
        then show ?thesis using False by (simp add: x)
      next
        case (Suc i)
        then show ?thesis using j k(4) by (simp add: x add.assoc)
      qed
    qed
    have "Suc k < length (x # xs)
      \<and> select_loop t cur (x # xs) = Some (fst ((x # xs) ! Suc k))
      \<and> t < cur + cumulative_weight (Suc (Suc k)) (x # xs)"
      using k False unfold by (simp add: x add.assoc)
    with first show ?thesis by blast
  qed
qed

lemma GetActiveBackends_wrr_weight [simp]:
  "GetActiveBackends (lb\<lparr>wrr_weight := c\<rparr>) = GetActiveBackends lb"
  by (simp add: GetActiveBackends_def)

lemma NextBackend_step:
  assumes active: "GetActiveBackends lb \<noteq> []"
    and total: "sum_of_weights (GetActiveBackends lb) < 2 ^ 63"
    and c0: "0 \<le> wrr_weight lb" and c1: "wrr_weight lb + 1 < 2 ^ 63"
  shows "\<exists>k<length (GetActiveBackends lb).
           NextBackend lb
             = (Inr (fst (GetActiveBackends lb ! k)), lb\<lparr>wrr_weight := wrr_weight lb + 1\<rparr>)
           \<and> wrr_weight lb mod sum_of_weights (GetActiveBackends lb)
               < cumulative_weight (Suc k) (GetActiveBackends lb)
           \<and> (\<forall>j<k. cumulative_weight (Suc j) (GetActiveBackends lb)
                      \<le> wrr_weight lb mod sum_of_weights (GetActiveBackends lb))"
proof -
  let ?xs = "GetActiveBackends lb"
  let ?W = "sum_of_weights ?xs"
  let ?t = "wrr_weight lb mod ?W"
  have W: "0 < ?W" using active by (rule sum_of_weights_pos)
  have tw: "totalWeight_loop 0 ?xs = ?W"
    using totalWeight_loop_sum [of 0 ?xs] total by simp
  have t: "go_rem (wrr_weight lb) ?W = ?t"
    using c0 W by (rule go_rem_nonneg)
  have t0: "0 \<le> ?t" and t1: "?t < ?W" using W by simp_all
  have w: "wrap64 (wrr_weight lb + 1) = wrr_weight lb + 1"
    using c0 c1 by (intro wrap64_id) linarith+
  obtain k where k: "k < length ?xs" "select_loop ?t 0 ?xs = Some (fst (?xs ! k))"
      "?t < 0 + cumulative_weight (Suc k) ?xs"
      "\<forall>j<k. 0 + cumulative_weight (Suc j) ?xs \<le> ?t"
    using select_loop_first [of 0 ?xs ?t] total t0 t1 by auto
  have "NextBackend lb = (Inr (fst (?xs ! k)), lb\<lparr>wrr_weight := wrr_weight lb + 1\<rparr>)"
    using active W by (simp add: NextBackend_def Let_def tw t w k(2))
  with k show ?thesis by auto
qed

lemma NextBackend_snd:
  assumes "GetActiveBackends lb \<noteq> []"
    and "sum_of_weights (GetActiveBackends lb) < 2 ^ 63"
    and "0 \<le> wrr_weight lb" and "wrr_weight lb + 1 < 2 ^ 63"
  shows "snd (NextBackend lb) = lb\<lparr>wrr_weight := wrr_weight lb + 1\<rparr>"
  using NextBackend_step [OF assms] by auto

lemma NextBackend_calls_unfold:
  assumes active: "GetActiveBackends lb \<noteq> []"
    and total: "sum_of_weights (GetActiveBackends lb) < 2 ^ 63"
    and c0: "0 \<le> wrr_weight lb" and c1: "wrr_weight lb + int n < 2 ^ 63"
  shows "NextBackend_calls n lb
         = (map (\<lambda>i. fst (NextBackend (lb\<lparr>wrr_weight := wrr_weight lb + int i\<rparr>))) [0..<n],
            lb\<lparr>wrr_weight := wrr_weight lb + int n\<rparr>)"
  using assms
proof (induction n arbitrary: lb)
  case 0
  then show ?case by simp
next
  case (Suc n)
  let ?lb' = "lb\<lparr>wrr_weight := wrr_weight lb + 1\<rparr>"
  have s: "snd (NextBackend lb) = ?lb'"
    using Suc.prems by (intro NextBackend_snd) simp_all
  have IH: "NextBackend_calls n ?lb'
         = (map (\<lambda>i. fst (NextBackend (?lb'\<lparr>wrr_weight := wrr_weight ?lb' + int i\<rparr>))) [0..<n],
            ?lb'\<lparr>wrr_weight := wrr_weight ?lb' + int n\<rparr>)"
    using Suc.prems by (intro Suc.IH) simp_all
  have split: "[0..<Suc n] = 0 # map Suc [0..<n]"
    by (simp add: map_Suc_upt upt_conv_Cons del: upt_Suc)
  have "NextBackend_calls (Suc n) lb
        = (fst (NextBackend lb) # fst (NextBackend_calls n ?lb'), snd (NextBackend_calls n ?lb'))"
    using s by (simp add: case_prod_beta)
  also have "\<dots> = (map (\<lambda>i. fst (NextBackend (lb\<lparr>wrr_weight := wrr_weight lb + int i\<rparr>))) [0..<Suc n],
            lb\<lparr>wrr_weight := wrr_weight lb + int (Suc n)\<rparr>)"
    unfolding IH split
    by (simp add: o_def ac_simps)
  finally show ?case .
qed

lemma upt_12: "[n..<n + 12] = [n, n+1, n+2, n+3, n+4, n+5, n+6, n+7, n+8, n+9, n+10, n+11]"
  by (simp add: upt_rec)

lemma count_321:
  fixes n :: nat
  assumes d: "p1 \<noteq> p2" "p1 \<noteq> p3" "p2 \<noteq> p3"
  shows "count_list (map (\<lambda>i. [p1, p2, p3] ! slot (int i mod 6)) [n..<n + 12]) p1 = 6
       \<and> count_list (map (\<lambda>i. [p1, p2, p3] ! slot (int i mod 6)) [n..<n + 12]) p2 = 4
       \<and> count_list (map (\<lambda>i. [p1, p2, p3] ! slot (int i mod 6)) [n..<n + 12]) p3 = 2"
proof -
  obtain q r where n: "n = 6 * q + r" and r: "r < 6"
    by (metis mod_less_divisor mult_div_mod_eq zero_less_numeral)
  from r have "r = 0 \<or> r = 1 \<or> r = 2 \<or> r = 3 \<or> r = 4 \<or> r = 5" by arith
  then show ?thesis
    using d unfolding upt_12 n
    by (elim disjE) (simp_all add: slot_def)
qed

lemma totalWeight_loop_effective:
  "totalWeight_loop acc ((p, b) # rest) = totalWeight_loop (wrap64 (acc + effective_weight b)) rest"
  by (simp add: effective_weight_def)

lemma select_loop_effective:
  "select_loop t cur ((p, b) # rest) =
     (if t < wrap64 (cur + effective_weight b) then Some p
      else select_loop t (wrap64 (cur + effective_weight b)) rest)"
  by (simp add: effective_weight_def Let_def)

lemma GetActiveBackends_distinct: "distinct (map fst (GetActiveBackends lb))"
  by (simp add: GetActiveBackends_def distinct_map_filter)

lemma NextBackend_321':
  assumes w: "map (\<lambda>(p, backend). effective_weight backend) (GetActiveBackends lb) = [3, 2, 1]"
    and c0: "0 \<le> c"
  shows "fst (NextBackend (lb\<lparr>wrr_weight := c\<rparr>))
         = Inr (map fst (GetActiveBackends lb) ! slot (c mod 6))"
proof -
  obtain p1 b1 p2 b2 p3 b3 where xs: "GetActiveBackends lb = [(p1, b1), (p2, b2), (p3, b3)]"
    and ws: "effective_weight b1 = 3" "effective_weight b2 = 2" "effective_weight b3 = 1"
    using w by (auto simp: map_eq_Cons_conv)
  have t: "go_rem c 6 = c mod 6" using c0 by (intro go_rem_nonneg) simp_all
  have r: "0 \<le> c mod 6" "c mod 6 < 6" by simp_all
  show ?thesis
    using r
    by (simp add: NextBackend_def Let_def xs ws wrap64_def t slot_def
          totalWeight_loop_effective select_loop_effective
        del: totalWeight_loop.simps(2) select_loop.simps(2))
qed

lemma enumerate_map_snd:
  "enumerate n (map f xs) = map (\<lambda>(p, x). (p, f x)) (enumerate n xs)"
  by (induction xs arbitrary: n) simp_all

lemma GetActiveBackends_normal:
  "GetActiveBackends (lb\<lparr>lb_backends := map normal_weight (lb_backends lb)\<rparr>)
   = map (\<lambda>(p, b). (p, normal_weight b)) (GetActiveBackends lb)"
  by (simp add: GetActiveBackends_def enumerate_map_snd filter_map o_def case_prod_unfold
        normal_weight_def)

lemma effective_weight_normal [simp]: "effective_weight (normal_weight b) = effective_weight b"
  by (simp add: effective_weight_def normal_weight_def)

lemma totalWeight_loop_normal:
  "totalWeight_loop acc (map (\<lambda>(p, b). (p, normal_weight b)) xs) = totalWeight_loop acc xs"
proof (induction xs arbitrary: acc)
  case Nil
  show ?case by simp
next
  case (Cons x xs)
  obtain p b where x: "x = (p, b)" by (cases x)
  show ?case
    by (simp add: x Cons totalWeight_loop_effective del: totalWeight_loop.simps(2))
qed

lemma select_loop_normal:
  "select_loop t cur (map (\<lambda>(p, b). (p, normal_weight b)) xs) = select_loop t cur xs"
proof (induction xs arbitrary: cur)
  case Nil
  show ?case by simp
next
  case (Cons x xs)
  obtain p b where x: "x = (p, b)" by (cases x)
  show ?case
    by (simp add: x Cons select_loop_effective del: select_loop.simps(2))
qed

lemma NextBackend_normal:
  "fst (NextBackend (lb\<lparr>lb_backends := map normal_weight (lb_backends lb)\<rparr>)) = fst (NextBackend lb)"
proof (cases "GetActiveBackends lb")
  case Nil
  then show ?thesis by (simp add: NextBackend_def GetActiveBackends_normal)
next
  case (Cons x xs)
  obtain p b where x: "x = (p, b)" by (cases x)
  have hd: "fst (hd (map (\<lambda>(p, b). (p, normal_weight b)) (GetActiveBackends lb)))
            = fst (hd (GetActiveBackends lb))"
    by (simp add: Cons x)
  show ?thesis
    unfolding NextBackend_def Let_def GetActiveBackends_normal totalWeight_loop_normal
      select_loop_normal length_map hd
    by (simp split: option.splits)
qed

lemma count_list_Inr: "count_list (map Inr xs) (Inr p :: 'e + 'a) = count_list xs p"
  by (induction xs) simp_all

text \<open>
  Claim C6. Take a new weighted round robin balancer with at least one active backend,
  the sum of whose weights fits the type \<open>int\<close>, and let its backends stay as they are.
  A weight of 0 or less counts as 1: writing the counted weights into the backends
  does not change the selection. After \<open>n\<close> calls the counter is \<open>n\<close>, and the call
  number \<open>n\<close>, counted from 0, selects the first active backend whose cumulative
  weight is strictly greater than \<open>n mod\<close> the sum of the weights. With three active
  backends of the weights 3, 2 and 1, any 12 consecutive calls select the first six
  times, the second four times and the third twice.
\<close>

theorem NextBackend_weighted_round_robin:
  fixes lb :: WeightedRoundRobinLoadBalancer and n :: nat
  assumes fresh: "wrr_weight lb = 0"
    and active: "GetActiveBackends lb \<noteq> []"
    and total: "sum_of_weights (GetActiveBackends lb) < 2 ^ 63"
    and calls: "int n + 12 < 2 ^ 63"
  shows "fst (NextBackend (lb\<lparr>lb_backends := map normal_weight (lb_backends lb)\<rparr>))
           = fst (NextBackend lb)
     \<and> wrr_weight (snd (NextBackend_calls n lb)) = int n
     \<and> (\<exists>k<length (GetActiveBackends lb).
          fst (NextBackend_calls (Suc n) lb) ! n = Inr (fst (GetActiveBackends lb ! k))
          \<and> int n mod sum_of_weights (GetActiveBackends lb)
              < cumulative_weight (Suc k) (GetActiveBackends lb)
          \<and> (\<forall>j<k. cumulative_weight (Suc j) (GetActiveBackends lb)
                     \<le> int n mod sum_of_weights (GetActiveBackends lb)))
     \<and> (map (\<lambda>(p, backend). effective_weight backend) (GetActiveBackends lb) = [3, 2, 1] \<longrightarrow>
          count_list (drop n (fst (NextBackend_calls (n + 12) lb)))
            (Inr (fst (GetActiveBackends lb ! 0))) = 6
        \<and> count_list (drop n (fst (NextBackend_calls (n + 12) lb)))
            (Inr (fst (GetActiveBackends lb ! 1))) = 4
        \<and> count_list (drop n (fst (NextBackend_calls (n + 12) lb)))
            (Inr (fst (GetActiveBackends lb ! 2))) = 2)"
proof (intro conjI impI)
  let ?xs = "GetActiveBackends lb"
  let ?F = "\<lambda>i. fst (NextBackend (lb\<lparr>wrr_weight := int i\<rparr>))"
  have unfold: "NextBackend_calls m lb = (map ?F [0..<m], lb\<lparr>wrr_weight := int m\<rparr>)"
    if "int m < 2 ^ 63" for m
    using NextBackend_calls_unfold [of lb m] active total fresh that by simp
  show "fst (NextBackend (lb\<lparr>lb_backends := map normal_weight (lb_backends lb)\<rparr>))
           = fst (NextBackend lb)"
    by (rule NextBackend_normal)
  show "wrr_weight (snd (NextBackend_calls n lb)) = int n"
    using calls by (simp add: unfold)
  have nth: "fst (NextBackend_calls (Suc n) lb) ! n = ?F n"
  proof -
    have "int (Suc n) < 2 ^ 63" using calls by simp
    then have "fst (NextBackend_calls (Suc n) lb) = map ?F [0..<Suc n]"
      by (simp only: unfold fst_conv)
    then show ?thesis by (simp add: nth_append del: upt_Suc)
  qed
  show "\<exists>k<length ?xs.
          fst (NextBackend_calls (Suc n) lb) ! n = Inr (fst (?xs ! k))
          \<and> int n mod sum_of_weights ?xs < cumulative_weight (Suc k) ?xs
          \<and> (\<forall>j<k. cumulative_weight (Suc j) ?xs \<le> int n mod sum_of_weights ?xs)"
    using NextBackend_step [of "lb\<lparr>wrr_weight := int n\<rparr>"] active total calls
    unfolding nth by auto
  assume w: "map (\<lambda>(p, backend). effective_weight backend) ?xs = [3, 2, 1]"
  then obtain p1 b1 p2 b2 p3 b3 where xs: "?xs = [(p1, b1), (p2, b2), (p3, b3)]"
    by (auto simp: map_eq_Cons_conv)
  have d: "p1 \<noteq> p2" "p1 \<noteq> p3" "p2 \<noteq> p3"
    using GetActiveBackends_distinct [of lb] by (simp_all add: xs)
  have F: "?F i = Inr ([p1, p2, p3] ! slot (int i mod 6))" for i
    using NextBackend_321' [OF w, of "int i"] by (simp add: xs)
  have "int (n + 12) < 2 ^ 63" using calls by simp
  then have "drop n (fst (NextBackend_calls (n + 12) lb)) = map ?F [n..<n + 12]"
    by (simp only: unfold fst_conv drop_map drop_upt) simp
  then have run: "drop n (fst (NextBackend_calls (n + 12) lb))
      = map Inr (map (\<lambda>i. [p1, p2, p3] ! slot (int i mod 6)) [n..<n + 12])"
    by (simp only: F map_map o_def)
  show "count_list (drop n (fst (NextBackend_calls (n + 12) lb))) (Inr (fst (?xs ! 0))) = 6"
    unfolding run count_list_Inr using count_321 [OF d, of n] by (simp add: xs)
  show "count_list (drop n (fst (NextBackend_calls (n + 12) lb))) (Inr (fst (?xs ! 1))) = 4"
    unfolding run count_list_Inr using count_321 [OF d, of n] by (simp add: xs)
  show "count_list (drop n (fst (NextBackend_calls (n + 12) lb))) (Inr (fst (?xs ! 2))) = 2"
    unfolding run count_list_Inr using count_321 [OF d, of n] by (simp add: xs)
qed

lemma example_wrr_active:
  "GetActiveBackends example_wrr =
     [(0, example_backend ''http://10.0.0.1:8080'' 3 True 0),
      (2, example_backend ''http://10.0.0.3:8080'' 2 True 0),
      (3, example_backend ''http://10.0.0.4:8080'' 0 True 0)]"
  by (simp add: GetActiveBackends_def example_wrr_def NewWeightedRoundRobinLoadBalancer_def
        example_backend_def)

text \<open>
  The theorem at work: of the calls 5 to 16 on the example balancer, six go to the
  backend at position 0, four to the one at position 2 and two to the one at position 3,
  whose configured weight 0 counts as 1.
\<close>

theorem NextBackend_weighted_round_robin_witness:
  "count_list (drop 5 (fst (NextBackend_calls 17 example_wrr))) (Inr 0) = 6
   \<and> count_list (drop 5 (fst (NextBackend_calls 17 example_wrr))) (Inr 2) = 4
   \<and> count_list (drop 5 (fst (NextBackend_calls 17 example_wrr))) (Inr 3) = 2"
  using NextBackend_weighted_round_robin [of example_wrr 5]
  by (simp add: example_wrr_active sum_of_weights_def cumulative_weight_def effective_weight_def
        example_backend_def)
     (simp add: example_wrr_def NewWeightedRoundRobinLoadBalancer_def)


end
